theory Spec2Isabelle
  imports Main "HOL-Library.AList"
begin

section \<open>Python strings and dictionaries\<close>

text \<open>
  Strings are lists of 8-bit characters, that is Python strings whose code points lie
  below 256. A dictionary is an association list with distinct keys in insertion order:
  \<open>d[k] = v\<close> is \<open>AList.update k v d\<close>, which overwrites in place or appends.
\<close>

type_synonym dict = "(string \<times> string) list"

definition is_space :: "char \<Rightarrow> bool" where
  \<comment> \<open>\<open>str.isspace\<close> below 256: TAB..CR, FS..US and SPACE, NEL (0x85), NBSP (0xA0).\<close>
  "is_space c =
     (let n = (of_char c :: nat)
      in (9 \<le> n \<and> n \<le> 13) \<or> (28 \<le> n \<and> n \<le> 32) \<or> n = 133 \<or> n = 160)"

definition lstrip :: "string \<Rightarrow> string" where
  "lstrip s = dropWhile is_space s"

definition rstrip :: "string \<Rightarrow> string" where
  "rstrip s = rev (dropWhile is_space (rev s))"

definition strip :: "string \<Rightarrow> string" where
  \<comment> \<open>\<open>s.strip()\<close>\<close>
  "strip s = rstrip (lstrip s)"

definition rstrip_char :: "char \<Rightarrow> string \<Rightarrow> string" where
  \<comment> \<open>\<open>s.rstrip(c)\<close> for a one-character argument\<close>
  "rstrip_char c s = rev (dropWhile (\<lambda>x. x = c) (rev s))"

fun split_on :: "char \<Rightarrow> string \<Rightarrow> string list" where
  \<comment> \<open>\<open>s.split(sep)\<close> for a one-character separator: never the empty list\<close>
  "split_on sep [] = [[]]"
| "split_on sep (c # cs) =
     (if c = sep then [] # split_on sep cs
      else (c # hd (split_on sep cs)) # tl (split_on sep cs))"

definition split_first :: "char \<Rightarrow> string \<Rightarrow> string \<times> string" where
  \<comment> \<open>\<open>s.split(sep, 1)\<close> unpacked into two names; only called when \<open>sep\<close> occurs in \<open>s\<close>\<close>
  "split_first sep s = (takeWhile (\<lambda>x. x \<noteq> sep) s, tl (dropWhile (\<lambda>x. x \<noteq> sep) s))"

definition startswith :: "string \<Rightarrow> char \<Rightarrow> bool" where
  "startswith s c = (case s of [] \<Rightarrow> False | x # _ \<Rightarrow> x = c)"

section \<open>Errors\<close>

datatype error =
    ConfigError string
  | ApiError (status_code: int) (status_message: string)
  | OtherError string

section \<open>Selector parsing\<close>

text \<open>
  \<open>json.loads\<close> belongs to the Python standard library. It is a parameter of the model:
  a function from the text to the decoded value, or to the message of the
  \<open>JSONDecodeError\<close> it raises. Keys of a decoded object are strings by construction.
\<close>

typedecl pyfloat

datatype json =
    JNull
  | JBool bool
  | JInt int
  | JFloat pyfloat
  | JStr string
  | JArr "json list"
  | JObj "(string \<times> json) list"

fun is_JStr :: "json \<Rightarrow> bool" where
  "is_JStr (JStr _) = True"
| "is_JStr _ = False"

fun str_of :: "json \<Rightarrow> string" where
  "str_of (JStr s) = s"
| "str_of _ = []"

fun selector_loop :: "string list \<Rightarrow> dict \<Rightarrow> error + dict" where
  \<comment> \<open>the \<open>for part in selector.split(",")\<close> loop of \<open>parse_selector\<close>\<close>
  "selector_loop [] result = Inr result"
| "selector_loop (part # parts) result =
     (let part = strip part in
      if part = [] then selector_loop parts result
      else if CHR ''='' \<notin> set part then
        Inl (ConfigError
          ''selector must be in 'key=value' format (comma-separated) or JSON object'')
      else
        let (key, value) = split_first CHR ''='' part;
            key = strip key;
            value = strip value
        in if key = [] \<or> value = [] then
             Inl (ConfigError ''selector contains an empty key or value'')
           else selector_loop parts (AList.update key value result))"

definition parse_selector ::
  "(string \<Rightarrow> string + json) \<Rightarrow> string option \<Rightarrow> error + dict" where
  "parse_selector json_loads raw =
     (case raw of
        None \<Rightarrow> Inl (ConfigError ''selector must be set'')
      | Some raw \<Rightarrow>
          let selector = strip raw in
          if selector = [] then Inl (ConfigError ''selector must not be empty'')
          else if startswith selector CHR ''{'' then
            (case json_loads selector of
               Inl e \<Rightarrow> Inl (ConfigError (''selector JSON is invalid: '' @ e))
             | Inr parsed \<Rightarrow>
                 (case parsed of
                    JObj items \<Rightarrow>
                      if \<not> list_all (\<lambda>(k, v). is_JStr v) items then
                        Inl (ConfigError ''selector JSON must be an object of string:string'')
                      else if items = [] then
                        Inl (ConfigError ''selector must not be empty'')
                      else Inr (map (\<lambda>(k, v). (k, str_of v)) items)
                  | _ \<Rightarrow>
                      Inl (ConfigError ''selector JSON must be an object of string:string'')))
          else
            (case selector_loop (split_on CHR '','' selector) [] of
               Inl e \<Rightarrow> Inl e
             | Inr result \<Rightarrow>
                 if result = [] then Inl (ConfigError ''selector must not be empty'')
                 else Inr result))"

section \<open>Annotation parsing\<close>

text \<open>
  The two compiled patterns are regular expressions over character classes. A class is a
  list of inclusive ranges; matching is by derivatives, so it computes.
\<close>

datatype rexp =
    Zero
  | One
  | Cls "(char \<times> char) list"
  | Alt rexp rexp
  | Seq rexp rexp
  | Star rexp

definition in_class :: "char \<Rightarrow> (char \<times> char) list \<Rightarrow> bool" where
  "in_class c rs =
     list_ex (\<lambda>(lo, hi). (of_char lo :: nat) \<le> of_char c \<and> (of_char c :: nat) \<le> of_char hi) rs"

fun nullable :: "rexp \<Rightarrow> bool" where
  "nullable Zero = False"
| "nullable One = True"
| "nullable (Cls rs) = False"
| "nullable (Alt r s) = (nullable r \<or> nullable s)"
| "nullable (Seq r s) = (nullable r \<and> nullable s)"
| "nullable (Star r) = True"

fun alt :: "rexp \<Rightarrow> rexp \<Rightarrow> rexp" where
  \<comment> \<open>\<open>Alt\<close>, dropping an alternative that matches nothing\<close>
  "alt Zero s = s"
| "alt r Zero = r"
| "alt r s = Alt r s"

fun seq :: "rexp \<Rightarrow> rexp \<Rightarrow> rexp" where
  \<comment> \<open>\<open>Seq\<close>, simplified when the first part is \<open>Zero\<close> or \<open>One\<close>\<close>
  "seq Zero s = Zero"
| "seq One s = s"
| "seq r s = Seq r s"

fun deriv :: "char \<Rightarrow> rexp \<Rightarrow> rexp" where
  \<comment> \<open>what is left to match after reading \<open>c\<close>\<close>
  "deriv c Zero = Zero"
| "deriv c One = Zero"
| "deriv c (Cls rs) = (if in_class c rs then One else Zero)"
| "deriv c (Alt r s) = alt (deriv c r) (deriv c s)"
| "deriv c (Seq r s) =
     (if nullable r then alt (seq (deriv c r) s) (deriv c s) else seq (deriv c r) s)"
| "deriv c (Star r) = seq (deriv c r) (Star r)"

definition fullmatch :: "rexp \<Rightarrow> string \<Rightarrow> bool" where
  \<comment> \<open>the whole string is a word of the expression\<close>
  "fullmatch r s = nullable (fold deriv s r)"

definition re_match :: "rexp \<Rightarrow> string \<Rightarrow> bool" where
  \<comment> \<open>\<open>re.compile("^" r "$").match(s)\<close>: without \<open>re.MULTILINE\<close>, \<open>$\<close> matches at
      the end of the string and also just before a line feed that ends the string\<close>
  "re_match r s =
     (fullmatch r s \<or> (s \<noteq> [] \<and> last s = CHR 0x0A \<and> fullmatch r (butlast s)))"

definition Opt :: "rexp \<Rightarrow> rexp" where
  \<comment> \<open>\<open>(r)?\<close>\<close>
  "Opt r = Alt r One"

definition dns_label :: rexp where
  \<comment> \<open>\<open>[a-z0-9]([-a-z0-9]*[a-z0-9])?\<close>\<close>
  "dns_label =
     Seq (Cls [(CHR ''a'', CHR ''z''), (CHR ''0'', CHR ''9'')])
       (Opt (Seq (Star (Cls [(CHR ''-'', CHR ''-''), (CHR ''a'', CHR ''z''), (CHR ''0'', CHR ''9'')]))
                 (Cls [(CHR ''a'', CHR ''z''), (CHR ''0'', CHR ''9'')])))"

definition DNS1123_SUBDOMAIN_PATTERN :: rexp where
  \<comment> \<open>\<open>^[a-z0-9]([-a-z0-9]*[a-z0-9])?(\.[a-z0-9]([-a-z0-9]*[a-z0-9])?)*$\<close>\<close>
  "DNS1123_SUBDOMAIN_PATTERN =
     Seq dns_label (Star (Seq (Cls [(CHR ''.'', CHR ''.'')]) dns_label))"

definition QUALIFIED_NAME_PATTERN :: rexp where
  \<comment> \<open>\<open>^[A-Za-z0-9]([-A-Za-z0-9_.]*[A-Za-z0-9])?$\<close>\<close>
  "QUALIFIED_NAME_PATTERN =
     Seq (Cls [(CHR ''A'', CHR ''Z''), (CHR ''a'', CHR ''z''), (CHR ''0'', CHR ''9'')])
       (Opt (Seq (Star (Cls [(CHR ''-'', CHR ''-''), (CHR ''A'', CHR ''Z''), (CHR ''a'', CHR ''z''),
                             (CHR ''0'', CHR ''9''), (CHR ''_'', CHR ''_''), (CHR ''.'', CHR ''.'')]))
                 (Cls [(CHR ''A'', CHR ''Z''), (CHR ''a'', CHR ''z''), (CHR ''0'', CHR ''9'')])))"

definition is_valid_annotation_key :: "string \<Rightarrow> bool" where
  "is_valid_annotation_key key =
     (if key = [] \<or> length key > 253 then False
      else
        let parts = split_on CHR ''/'' key in
        if length parts > 2 then False
        else if length parts = 2 then
          (let prefix = parts ! 0; name = parts ! 1 in
           if prefix = [] \<or> \<not> re_match DNS1123_SUBDOMAIN_PATTERN prefix then False
           else if name = [] \<or> length name > 63 \<or> \<not> re_match QUALIFIED_NAME_PATTERN name
           then False else True)
        else
          (let name = parts ! 0 in
           if name = [] \<or> length name > 63 \<or> \<not> re_match QUALIFIED_NAME_PATTERN name
           then False else True))"

text \<open>
  \<open>repr\<close> of a string, as the \<open>{key!r}\<close> of the error message prints it: single quotes
  unless the string has a single quote and no double quote; backslash and the quote
  escaped; TAB, LF, CR by letter; every other unprintable character as \<open>\xhh\<close>.
\<close>

definition hex_digit :: "nat \<Rightarrow> char" where
  "hex_digit n = (if n < 10 then char_of (48 + n) else char_of (87 + n))"

definition repr_char :: "char \<Rightarrow> char \<Rightarrow> string" where
  "repr_char quote c =
     (let n = (of_char c :: nat) in
      if c = quote \<or> c = CHR 0x5C then [CHR 0x5C, c]
      else if n = 9 then [CHR 0x5C, CHR ''t'']
      else if n = 10 then [CHR 0x5C, CHR ''n'']
      else if n = 13 then [CHR 0x5C, CHR ''r'']
      else if n < 32 \<or> (127 \<le> n \<and> n \<le> 160) \<or> n = 173 then
        [CHR 0x5C, CHR ''x'', hex_digit (n div 16), hex_digit (n mod 16)]
      else [c])"

definition py_repr :: "string \<Rightarrow> string" where
  "py_repr s =
     (let quote = (if CHR 0x27 \<in> set s \<and> CHR 0x22 \<notin> set s then CHR 0x22 else CHR 0x27)
      in [quote] @ concat (map (repr_char quote) s) @ [quote])"

fun annotations_loop :: "string list \<Rightarrow> dict \<Rightarrow> error + dict" where
  \<comment> \<open>the \<open>for pair in [...]\<close> loop of \<open>parse_annotations\<close>\<close>
  "annotations_loop [] result = Inr result"
| "annotations_loop (pair # pairs) result =
     (if CHR ''='' \<notin> set pair then
        Inl (ConfigError
          ''loadbalancer-annotations must be in 'key=value' format (comma-separated)'')
      else
        let (key, value) = split_first CHR ''='' pair;
            key = strip key;
            value = strip value
        in if \<not> is_valid_annotation_key key then
             Inl (ConfigError (''invalid annotation key: '' @ py_repr key))
           else annotations_loop pairs (AList.update key value result))"

definition parse_annotations :: "string option \<Rightarrow> error + dict" where
  "parse_annotations raw =
     (case raw of
        None \<Rightarrow> Inr []
      | Some raw \<Rightarrow>
          let text = rstrip_char CHR '','' (strip raw) in
          if text = [] then Inr []
          else annotations_loop
                 (map strip (filter (\<lambda>p. strip p \<noteq> []) (split_on CHR '','' text))) [])"

section \<open>Fixed IP and ports\<close>

definition validate_port :: "string \<Rightarrow> int \<Rightarrow> error + int" where
  "validate_port name value =
     (if \<not> (1 \<le> value \<and> value \<le> 65535) then
        Inl (ConfigError (name @ '' must be between 1 and 65535''))
      else Inr value)"

text \<open>
  \<open>ipaddress.ip_address\<close> belongs to the Python standard library. It is a parameter
  \<open>ip_address\<close> of the model: the normalized text of the address, or \<open>None\<close> where the
  library raises \<open>ValueError\<close>.
\<close>

definition parse_fixed_ip :: "(string \<Rightarrow> string option) \<Rightarrow> string option \<Rightarrow> error + string option" where
  "parse_fixed_ip ip_address raw =
     (case raw of
        None \<Rightarrow> Inr None
      | Some raw \<Rightarrow>
          let text = strip raw in
          if text = [] then Inr None
          else (case ip_address text of
                  Some normalized \<Rightarrow> Inr (Some normalized)
                | None \<Rightarrow> Inl (ConfigError ''fixed-ip must be a valid IPv4 or IPv6 address'')))"

section \<open>The Service object\<close>

record ServiceConfig =
  name :: string
  namespace :: string
  selector :: dict
  target_port :: int
  lb_port :: int
  annotations :: dict
  fixed_ip :: "string option"

record ObjectMeta =
  meta_name :: string
  meta_namespace :: string
  meta_labels :: dict
  meta_annotations :: "dict option"

record ServicePort =
  port :: int
  targetPort :: int
  protocol :: string
  port_name :: string

record ServiceSpec =
  spec_type :: string
  loadBalancerIP :: "string option"
  spec_selector :: dict
  ports :: "ServicePort list"

record Service =
  metadata :: ObjectMeta
  spec :: ServiceSpec

definition build_service :: "ServiceConfig \<Rightarrow> Service" where
  \<comment> \<open>\<open>x or None\<close> turns an empty dictionary, and an empty string, into \<open>None\<close>\<close>
  "build_service cfg =
     \<lparr> metadata =
         \<lparr> meta_name = name cfg,
           meta_namespace = namespace cfg,
           meta_labels = [(''app.kubernetes.io/name'', name cfg)],
           meta_annotations = (if annotations cfg = [] then None else Some (annotations cfg)) \<rparr>,
       spec =
         \<lparr> spec_type = ''LoadBalancer'',
           loadBalancerIP =
             (case fixed_ip cfg of
                None \<Rightarrow> None
              | Some ip \<Rightarrow> if ip = [] then None else Some ip),
           spec_selector = selector cfg,
           ports = [\<lparr> port = lb_port cfg, targetPort = target_port cfg,
                      protocol = ''TCP'', port_name = ''lb'' \<rparr>] \<rparr> \<rparr>"

section \<open>Reconciliation\<close>

text \<open>
  The cluster client is the \<open>lightkube\<close> package, outside this repository. The model takes
  it as a parameter: \<open>None\<close> when the package cannot be imported, otherwise the constructor
  \<open>Client(namespace, field_manager)\<close>, whose three operations act on a cluster state
  \<open>'st\<close> and either return or raise.
\<close>

record 'st Client =
  create :: "Service \<Rightarrow> 'st \<Rightarrow> (error + unit) \<times> 'st"
  replace :: "Service \<Rightarrow> 'st \<Rightarrow> (error + unit) \<times> 'st"
  delete :: "string \<Rightarrow> string \<Rightarrow> 'st \<Rightarrow> (error + unit) \<times> 'st"

type_synonym 'st lightkube = "(string \<Rightarrow> string \<Rightarrow> 'st Client) option"

definition missing_dependency :: error where
  "missing_dependency =
     ConfigError
       ''missing runtime dependency 'lightkube' (repack the charm after updating uv.lock)''"

definition service_config ::
  "(string \<Rightarrow> string option) \<Rightarrow> string \<Rightarrow> string \<Rightarrow> dict \<Rightarrow> int \<Rightarrow> int \<Rightarrow>
   dict option \<Rightarrow> string option \<Rightarrow> error + ServiceConfig" where
  \<comment> \<open>the checks of \<open>ensure_loadbalancer_service\<close> and the \<open>ServiceConfig\<close> it builds,
      up to the line before \<open>_build_service\<close>\<close>
  "service_config ip_address app_name ns sel tport lport annots fip =
     (if app_name = [] then Inl (ConfigError ''app_name must not be empty'')
      else if ns = [] then Inl (ConfigError ''namespace must not be empty'')
      else if sel = [] then Inl (ConfigError ''selector must not be empty'')
      else
        (case validate_port ''target-port'' tport of
           Inl e \<Rightarrow> Inl e
         | Inr tport \<Rightarrow>
             (case validate_port ''lb-port'' lport of
                Inl e \<Rightarrow> Inl e
              | Inr lport \<Rightarrow>
                  (case parse_fixed_ip ip_address fip of
                     Inl e \<Rightarrow> Inl e
                   | Inr ip \<Rightarrow>
                       Inr \<lparr> name = app_name @ ''-lb'',
                             namespace = ns,
                             selector = sel,
                             target_port = tport,
                             lb_port = lport,
                             annotations = (case annots of None \<Rightarrow> [] | Some a \<Rightarrow> a),
                             fixed_ip = ip \<rparr>))))"

definition is_conflict :: "error \<Rightarrow> bool" where
  \<comment> \<open>an \<open>ApiError\<close> with \<open>e.status.code == 409\<close>\<close>
  "is_conflict e = (case e of ApiError code _ \<Rightarrow> code = 409 | _ \<Rightarrow> False)"

definition is_not_found :: "error \<Rightarrow> bool" where
  \<comment> \<open>an \<open>ApiError\<close> with \<open>e.status.code == 404\<close>\<close>
  "is_not_found e = (case e of ApiError code _ \<Rightarrow> code = 404 | _ \<Rightarrow> False)"

definition ensure_loadbalancer_service ::
  "(string \<Rightarrow> string option) \<Rightarrow> 'st lightkube \<Rightarrow> string \<Rightarrow> string \<Rightarrow> dict \<Rightarrow> int \<Rightarrow> int \<Rightarrow>
   dict option \<Rightarrow> string option \<Rightarrow> 'st \<Rightarrow> (error + unit) \<times> 'st" where
  "ensure_loadbalancer_service ip_address lk app_name ns sel tport lport annots fip st =
     (case service_config ip_address app_name ns sel tport lport annots fip of
        Inl e \<Rightarrow> (Inl e, st)
      | Inr cfg \<Rightarrow>
          (case lk of
             None \<Rightarrow> (Inl missing_dependency, st)
           | Some Client \<Rightarrow>
               let svc = build_service cfg;
                   client = Client ns app_name
               in (case create client svc st of
                     (Inr u, st1) \<Rightarrow> (Inr (), st1)
                   | (Inl e, st1) \<Rightarrow>
                       if \<not> is_conflict e then (Inl e, st1)
                       else replace client svc st1)))"

definition delete_loadbalancer_service ::
  "'st lightkube \<Rightarrow> string \<Rightarrow> string \<Rightarrow> 'st \<Rightarrow> (error + unit) \<times> 'st" where
  "delete_loadbalancer_service lk app_name ns st =
     (case lk of
        None \<Rightarrow> (Inl missing_dependency, st)
      | Some Client \<Rightarrow>
          let name = app_name @ ''-lb'';
              client = Client ns app_name
          in (case delete client name ns st of
                (Inr u, st1) \<Rightarrow> (Inr (), st1)
              | (Inl e, st1) \<Rightarrow>
                  if is_not_found e then (Inr (), st1) else (Inl e, st1)))"

section \<open>The cluster\<close>

text \<open>
  Modelled from the spec: the cluster API behind the client, which is not part of this
  repository. The spec gives its contract as
  \<open>Create(obj) -> OK | AlreadyExists | OtherError\<close>,
  \<open>Replace(obj) -> OK | OtherError\<close> and
  \<open>Delete(kind, name, namespace) -> OK | NotFound | OtherError\<close>.
  The cluster is a map from (namespace, name) to the stored object. Each call takes the
  fault that the transport injects into it, if any; a call that fails leaves the cluster
  as it was.
\<close>

type_synonym cluster = "string \<times> string \<Rightarrow> Service option"

definition svc_key :: "Service \<Rightarrow> string \<times> string" where
  "svc_key svc = (meta_namespace (metadata svc), meta_name (metadata svc))"

definition cluster_create :: "error option \<Rightarrow> Service \<Rightarrow> cluster \<Rightarrow> (error + unit) \<times> cluster" where
  "cluster_create fault svc objs =
     (case fault of
        Some e \<Rightarrow> (Inl e, objs)
      | None \<Rightarrow>
          (case objs (svc_key svc) of
             Some _ \<Rightarrow> (Inl (ApiError 409 ''AlreadyExists''), objs)
           | None \<Rightarrow> (Inr (), objs(svc_key svc \<mapsto> svc))))"

definition cluster_replace :: "error option \<Rightarrow> Service \<Rightarrow> cluster \<Rightarrow> (error + unit) \<times> cluster" where
  "cluster_replace fault svc objs =
     (case fault of
        Some e \<Rightarrow> (Inl e, objs)
      | None \<Rightarrow>
          (case objs (svc_key svc) of
             None \<Rightarrow> (Inl (ApiError 404 ''NotFound''), objs)
           | Some _ \<Rightarrow> (Inr (), objs(svc_key svc \<mapsto> svc))))"

definition cluster_delete ::
  "error option \<Rightarrow> string \<Rightarrow> string \<Rightarrow> cluster \<Rightarrow> (error + unit) \<times> cluster" where
  "cluster_delete fault nm ns objs =
     (case fault of
        Some e \<Rightarrow> (Inl e, objs)
      | None \<Rightarrow>
          (case objs (ns, nm) of
             None \<Rightarrow> (Inl (ApiError 404 ''NotFound''), objs)
           | Some _ \<Rightarrow> (Inr (), objs((ns, nm) := None))))"

definition cluster_client ::
  "error option \<Rightarrow> error option \<Rightarrow> error option \<Rightarrow> string \<Rightarrow> string \<Rightarrow> cluster Client" where
  \<comment> \<open>a client whose create, replace and delete calls meet the given faults\<close>
  "cluster_client fc fr fd ns field_manager =
     \<lparr> create = cluster_create fc, replace = cluster_replace fr, delete = cluster_delete fd \<rparr>"

text \<open>
  The caller invokes the two operations one at a time. A history is a list of such
  invocations from the empty cluster; beside the cluster it records, for each
  (namespace, app name), the configuration of the latest reconciliation that succeeded.
\<close>

datatype event =
    Reconcile string string dict int int "dict option" "string option"
      "error option" "error option"
  | Delete string string "error option"

record world =
  objects :: cluster
  reconciled :: "string \<times> string \<Rightarrow> ServiceConfig option"

fun exec :: "(string \<Rightarrow> string option) \<Rightarrow> event \<Rightarrow> world \<Rightarrow> world" where
  "exec ip_address (Reconcile app_name ns sel tport lport annots fip fc fr) w =
     (case ensure_loadbalancer_service ip_address (Some (cluster_client fc fr None))
             app_name ns sel tport lport annots fip (objects w) of
        (Inl e, objs) \<Rightarrow> w\<lparr>objects := objs\<rparr>
      | (Inr u, objs) \<Rightarrow>
          (case service_config ip_address app_name ns sel tport lport annots fip of
             Inl e \<Rightarrow> w\<lparr>objects := objs\<rparr>
           | Inr cfg \<Rightarrow>
               \<lparr> objects = objs, reconciled = (reconciled w)((ns, app_name) \<mapsto> cfg) \<rparr>))"
| "exec ip_address (Delete app_name ns fd) w =
     w\<lparr>objects :=
         snd (delete_loadbalancer_service (Some (cluster_client None None fd))
                app_name ns (objects w))\<rparr>"

definition run :: "(string \<Rightarrow> string option) \<Rightarrow> event list \<Rightarrow> world" where
  "run ip_address evs =
     fold (exec ip_address) evs \<lparr> objects = Map.empty, reconciled = Map.empty \<rparr>"

section \<open>Vocabulary of the properties\<close>

text \<open>
  The definitions of this section are not code of the repository. They name what the
  properties below talk about: the segments a parser sees, the pair a segment stands for,
  the dictionary that a sequence of assignments builds, and the written form of a
  selector.
\<close>

definition trimmed :: "string \<Rightarrow> bool" where
  \<comment> \<open>no white space at either end\<close>
  "trimmed s = (s = [] \<or> (\<not> is_space (hd s) \<and> \<not> is_space (last s)))"

definition segment_key :: "string \<Rightarrow> string" where
  \<comment> \<open>the text before the first \<open>=\<close> of a segment, stripped\<close>
  "segment_key p = strip (fst (split_first CHR ''='' p))"

definition segment_value :: "string \<Rightarrow> string" where
  \<comment> \<open>the text after the first \<open>=\<close> of a segment, stripped\<close>
  "segment_value p = strip (snd (split_first CHR ''='' p))"

definition segment_item :: "string \<Rightarrow> string \<times> string" where
  "segment_item p = (segment_key p, segment_value p)"

definition dict_of :: "(string \<times> string) list \<Rightarrow> dict" where
  \<comment> \<open>the dictionary after assigning the pairs from left to right\<close>
  "dict_of kvs = fold (\<lambda>(k, v). AList.update k v) kvs []"

definition selector_segments :: "string \<Rightarrow> string list" where
  \<comment> \<open>the stripped, non-empty segments of a selector in CSV form\<close>
  "selector_segments raw = filter (\<lambda>p. p \<noteq> []) (map strip (split_on CHR '','' (strip raw)))"

definition selector_segment_ok :: "string \<Rightarrow> bool" where
  \<comment> \<open>the shape the loop of \<open>parse_selector\<close> accepts\<close>
  "selector_segment_ok p =
     (CHR ''='' \<in> set p \<and> segment_key p \<noteq> [] \<and> segment_value p \<noteq> [])"

definition selector_segment_error :: "string \<Rightarrow> error" where
  \<comment> \<open>what the loop of \<open>parse_selector\<close> raises at a segment it rejects\<close>
  "selector_segment_error p =
     (if CHR ''='' \<notin> set p then
        ConfigError ''selector must be in 'key=value' format (comma-separated) or JSON object''
      else ConfigError ''selector contains an empty key or value'')"

definition annotation_segments :: "string \<Rightarrow> string list" where
  \<comment> \<open>the stripped, non-blank segments of an annotation string\<close>
  "annotation_segments raw =
     map strip (filter (\<lambda>p. strip p \<noteq> [])
       (split_on CHR '','' (rstrip_char CHR '','' (strip raw))))"

definition annotation_segment_ok :: "string \<Rightarrow> bool" where
  "annotation_segment_ok p = (CHR ''='' \<in> set p \<and> is_valid_annotation_key (segment_key p))"

definition annotation_segment_error :: "string \<Rightarrow> error" where
  \<comment> \<open>what the loop of \<open>parse_annotations\<close> raises at a segment it rejects\<close>
  "annotation_segment_error p =
     (if CHR ''='' \<notin> set p then
        ConfigError ''loadbalancer-annotations must be in 'key=value' format (comma-separated)''
      else ConfigError (''invalid annotation key: '' @ py_repr (segment_key p)))"

text \<open>
  The CSV form of a selector, written out: segments joined by commas, a segment being
  blank or a key and a value around \<open>=\<close>, each with optional white space around it.
\<close>

datatype csv_segment =
    Blank string
  | Entry string string string string string string

fun render_segment :: "csv_segment \<Rightarrow> string" where
  "render_segment (Blank w) = w"
| "render_segment (Entry a k b c v d) = a @ k @ b @ ''='' @ c @ v @ d"

definition token :: "string \<Rightarrow> bool" where
  \<comment> \<open>a non-empty text without a comma and without white space at its ends\<close>
  "token t = (t \<noteq> [] \<and> \<not> is_space (hd t) \<and> \<not> is_space (last t) \<and> CHR '','' \<notin> set t)"

fun segment_wf :: "csv_segment \<Rightarrow> bool" where
  "segment_wf (Blank w) = list_all is_space w"
| "segment_wf (Entry a k b c v d) =
     (list_all is_space a \<and> list_all is_space b \<and> list_all is_space c \<and> list_all is_space d
      \<and> token k \<and> CHR ''='' \<notin> set k \<and> token v)"

fun entries :: "csv_segment list \<Rightarrow> (string \<times> string) list" where
  "entries [] = []"
| "entries (Blank w # segs) = entries segs"
| "entries (Entry a k b c v d # segs) = (k, v) # entries segs"

fun join :: "char \<Rightarrow> string list \<Rightarrow> string" where
  \<comment> \<open>\<open>sep.join(xs)\<close>\<close>
  "join sep [] = []"
| "join sep [x] = x"
| "join sep (x # y # ys) = x @ sep # join sep (y # ys)"

definition render_csv :: "csv_segment list \<Rightarrow> string" where
  "render_csv segs = join CHR '','' (map render_segment segs)"

definition consistent :: "world \<Rightarrow> bool" where
  \<comment> \<open>every object of the cluster is the one built from the configuration recorded for
      its namespace and app, under the name derived from the app\<close>
  "consistent w =
     (\<forall>ns n svc. objects w (ns, n) = Some svc \<longrightarrow>
        (\<exists>app cfg. n = app @ ''-lb'' \<and> reconciled w (ns, app) = Some cfg
                   \<and> svc = build_service cfg))"

fun segment_text :: "csv_segment \<Rightarrow> string list" where
  \<comment> \<open>what is left of a written segment once stripped: nothing of a blank one\<close>
  "segment_text (Blank w) = []"
| "segment_text (Entry a k b c v d) = [k @ b @ ''='' @ c @ v]"

section \<open>Create, and replace on conflict\<close>

text \<open>
  Claim C1. Once the inputs have passed validation, \<open>ensure_loadbalancer_service\<close> calls
  create with the object built from the configuration. If create raises an \<open>ApiError\<close>
  with status code 409, the result is whatever replace returns for the same object, run on
  the state that create left: the conflict itself does not reach the caller. If create
  raises anything else, that error is the result, unchanged. If create returns, the
  result is success with no value.
\<close>

theorem ensure_create_conflict_falls_back:
  assumes "service_config ip_address app_name ns sel tport lport annots fip = Inr cfg"
  shows "(\<forall>m st1. create (Client ns app_name) (build_service cfg) st = (Inl (ApiError 409 m), st1) \<longrightarrow>
            ensure_loadbalancer_service ip_address (Some Client) app_name ns sel tport lport annots fip st
              = replace (Client ns app_name) (build_service cfg) st1)
       \<and> (\<forall>e st1. create (Client ns app_name) (build_service cfg) st = (Inl e, st1) \<and> \<not> is_conflict e \<longrightarrow>
            ensure_loadbalancer_service ip_address (Some Client) app_name ns sel tport lport annots fip st
              = (Inl e, st1))
       \<and> (\<forall>st1. create (Client ns app_name) (build_service cfg) st = (Inr (), st1) \<longrightarrow>
            ensure_loadbalancer_service ip_address (Some Client) app_name ns sel tport lport annots fip st
              = (Inr (), st1))"
  using assms by (simp add: ensure_loadbalancer_service_def is_conflict_def)

theorem ensure_create_conflict_falls_back_witness:
  "service_config (\<lambda>_. None) ''myapp'' ''ns1'' [(''app'', ''myapp'')] 8080 80 (Some []) None
     = Inr \<lparr> name = ''myapp-lb'', namespace = ''ns1'', selector = [(''app'', ''myapp'')],
            target_port = 8080, lb_port = 80, annotations = [], fixed_ip = None \<rparr>
   \<and> ensure_loadbalancer_service (\<lambda>_. None) (Some (cluster_client None None None))
       ''myapp'' ''ns1'' [(''app'', ''myapp'')] 8080 80 (Some []) None
       [(''ns1'', ''myapp-lb'') \<mapsto> build_service
          \<lparr> name = ''myapp-lb'', namespace = ''ns1'', selector = [(''app'', ''other'')],
            target_port = 8080, lb_port = 81, annotations = [], fixed_ip = None \<rparr>]
     = (Inr (), [(''ns1'', ''myapp-lb'') \<mapsto> build_service
          \<lparr> name = ''myapp-lb'', namespace = ''ns1'', selector = [(''app'', ''myapp'')],
            target_port = 8080, lb_port = 80, annotations = [], fixed_ip = None \<rparr>])
   \<and> ensure_loadbalancer_service (\<lambda>_. None)
       (Some (cluster_client (Some (ApiError 500 ''boom'')) None None))
       ''myapp'' ''ns1'' [(''app'', ''myapp'')] 8080 80 (Some []) None Map.empty
     = (Inl (ApiError 500 ''boom''), Map.empty)
   \<and> ensure_loadbalancer_service (\<lambda>_. None) (Some (cluster_client None None None))
       ''myapp'' ''ns1'' [(''app'', ''myapp'')] 8080 80 (Some []) None Map.empty
     = (Inr (), [(''ns1'', ''myapp-lb'') \<mapsto> build_service
          \<lparr> name = ''myapp-lb'', namespace = ''ns1'', selector = [(''app'', ''myapp'')],
            target_port = 8080, lb_port = 80, annotations = [], fixed_ip = None \<rparr>])"
proof -
  let ?cfg = "\<lparr> name = ''myapp-lb'', namespace = ''ns1'', selector = [(''app'', ''myapp'')],
            target_port = 8080, lb_port = 80, annotations = [], fixed_ip = None \<rparr>"
  let ?old = "build_service
          \<lparr> name = ''myapp-lb'', namespace = ''ns1'', selector = [(''app'', ''other'')],
            target_port = 8080, lb_port = 81, annotations = [], fixed_ip = None \<rparr>"
  have sc: "service_config (\<lambda>_. None) ''myapp'' ''ns1'' [(''app'', ''myapp'')] 8080 80 (Some []) None
     = Inr ?cfg"
    by (simp add: service_config_def validate_port_def parse_fixed_ip_def)
  have key: "svc_key (build_service ?cfg) = (''ns1'', ''myapp-lb'')"
    by (simp add: svc_key_def build_service_def)
  note th = ensure_create_conflict_falls_back [OF sc]
  have a: "ensure_loadbalancer_service (\<lambda>_. None) (Some (cluster_client None None None))
       ''myapp'' ''ns1'' [(''app'', ''myapp'')] 8080 80 (Some []) None
       [(''ns1'', ''myapp-lb'') \<mapsto> ?old]
     = (Inr (), [(''ns1'', ''myapp-lb'') \<mapsto> build_service ?cfg])"
    using th [of "cluster_client None None None" "[(''ns1'', ''myapp-lb'') \<mapsto> ?old]"]
    by (simp add: cluster_client_def cluster_create_def cluster_replace_def key)
  have b: "ensure_loadbalancer_service (\<lambda>_. None)
       (Some (cluster_client (Some (ApiError 500 ''boom'')) None None))
       ''myapp'' ''ns1'' [(''app'', ''myapp'')] 8080 80 (Some []) None Map.empty
     = (Inl (ApiError 500 ''boom''), Map.empty)"
    using th [of "cluster_client (Some (ApiError 500 ''boom'')) None None" Map.empty]
    by (simp add: cluster_client_def cluster_create_def is_conflict_def)
  have c: "ensure_loadbalancer_service (\<lambda>_. None) (Some (cluster_client None None None))
       ''myapp'' ''ns1'' [(''app'', ''myapp'')] 8080 80 (Some []) None Map.empty
     = (Inr (), [(''ns1'', ''myapp-lb'') \<mapsto> build_service ?cfg])"
    using th [of "cluster_client None None None" Map.empty]
    by (simp add: cluster_client_def cluster_create_def key)
  show ?thesis using sc a b c by simp
qed

section \<open>Deletion\<close>

text \<open>
  Claim C2. \<open>delete_loadbalancer_service\<close> issues one delete for the name
  \<open>app_name @ ''-lb''\<close> in the given namespace. An \<open>ApiError\<close> with status code 404
  becomes success; any other error is returned unchanged; a returning delete is success.
  On the cluster, with no transport fault, deleting when no object exists succeeds and
  leaves the cluster as it was, and of two deletions in a row both succeed, the object
  being absent after the first.
\<close>

theorem delete_not_found_is_success:
  "(\<forall>m st1. delete (Client ns app_name) (app_name @ ''-lb'') ns st = (Inl (ApiError 404 m), st1) \<longrightarrow>
       delete_loadbalancer_service (Some Client) app_name ns st = (Inr (), st1))
 \<and> (\<forall>e st1. delete (Client ns app_name) (app_name @ ''-lb'') ns st = (Inl e, st1) \<and> \<not> is_not_found e \<longrightarrow>
       delete_loadbalancer_service (Some Client) app_name ns st = (Inl e, st1))
 \<and> (\<forall>st1. delete (Client ns app_name) (app_name @ ''-lb'') ns st = (Inr (), st1) \<longrightarrow>
       delete_loadbalancer_service (Some Client) app_name ns st = (Inr (), st1))
 \<and> (objs (ns, app_name @ ''-lb'') = None \<longrightarrow>
       delete_loadbalancer_service (Some (cluster_client fc fr None)) app_name ns objs = (Inr (), objs))
 \<and> fst (delete_loadbalancer_service (Some (cluster_client fc fr None)) app_name ns objs) = Inr ()
 \<and> fst (delete_loadbalancer_service (Some (cluster_client fc fr None)) app_name ns
          (snd (delete_loadbalancer_service (Some (cluster_client fc fr None)) app_name ns objs)))
     = Inr ()
 \<and> snd (delete_loadbalancer_service (Some (cluster_client fc fr None)) app_name ns objs)
       (ns, app_name @ ''-lb'') = None"
  by (auto simp add: delete_loadbalancer_service_def is_not_found_def cluster_client_def
        cluster_delete_def Let_def split: option.splits)


theorem delete_not_found_is_success_witness:
  "delete_loadbalancer_service (Some (cluster_client None None None)) ''myapp'' ''ns1'' Map.empty
     = (Inr (), Map.empty)
   \<and> delete_loadbalancer_service
        (Some (cluster_client None None (Some (ApiError 403 ''Forbidden'')))) ''myapp'' ''ns1'' Map.empty
     = (Inl (ApiError 403 ''Forbidden''), Map.empty)
   \<and> delete_loadbalancer_service (Some (cluster_client None None None)) ''myapp'' ''ns1''
        [(''ns1'', ''myapp-lb'') \<mapsto> build_service
          \<lparr> name = ''myapp-lb'', namespace = ''ns1'', selector = [(''app'', ''myapp'')],
            target_port = 8080, lb_port = 80, annotations = [], fixed_ip = None \<rparr>]
     = (Inr (), Map.empty)"
proof -
  let ?svc = "build_service
          \<lparr> name = ''myapp-lb'', namespace = ''ns1'', selector = [(''app'', ''myapp'')],
            target_port = 8080, lb_port = 80, annotations = [], fixed_ip = None \<rparr>"
  have a: "delete_loadbalancer_service (Some (cluster_client None None None)) ''myapp'' ''ns1'' Map.empty
     = (Inr (), Map.empty)"
    using delete_not_found_is_success
      [of "cluster_client None None None" "''ns1''" "''myapp''" Map.empty Map.empty None None]
    by (simp add: cluster_client_def cluster_delete_def)
  have b: "delete_loadbalancer_service
        (Some (cluster_client None None (Some (ApiError 403 ''Forbidden'')))) ''myapp'' ''ns1'' Map.empty
     = (Inl (ApiError 403 ''Forbidden''), Map.empty)"
    using delete_not_found_is_success
      [of "cluster_client None None (Some (ApiError 403 ''Forbidden''))" "''ns1''" "''myapp''"
          Map.empty Map.empty None None]
    by (simp add: cluster_client_def cluster_delete_def is_not_found_def)
  have c: "delete_loadbalancer_service (Some (cluster_client None None None)) ''myapp'' ''ns1''
        [(''ns1'', ''myapp-lb'') \<mapsto> ?svc] = (Inr (), Map.empty)"
    using delete_not_found_is_success
      [of "cluster_client None None None" "''ns1''" "''myapp''"
          "[(''ns1'', ''myapp-lb'') \<mapsto> ?svc]" Map.empty None None]
    by (simp add: cluster_client_def cluster_delete_def)
  show ?thesis using a b c by simp
qed

section \<open>Validation before any cluster call\<close>

text \<open>
  Claim C3. \<open>ensure_loadbalancer_service\<close> checks its own arguments, whatever the caller
  did before. If the app name, the namespace or the selector is empty, if a port lies
  outside 1..65535, or if the fixed IP is set (not \<open>None\<close>, not blank) and the address
  library rejects it, the result is a \<open>ConfigError\<close>, and it is the same for every client
  and every cluster state, which comes back unchanged: no create or replace call is made.
  When the first failing check is a port, the message names \<open>target-port\<close> or \<open>lb-port\<close>;
  when it is the address, the message is that of \<open>parse_fixed_ip\<close>.
\<close>

theorem ensure_validates_before_any_call:
  assumes "app_name = [] \<or> ns = [] \<or> sel = []
           \<or> \<not> (1 \<le> tport \<and> tport \<le> 65535) \<or> \<not> (1 \<le> lport \<and> lport \<le> 65535)
           \<or> (\<exists>raw. fip = Some raw \<and> strip raw \<noteq> [] \<and> ip_address (strip raw) = None)"
  shows "\<exists>msg.
           (\<forall>(lk :: 'st lightkube) st. ensure_loadbalancer_service ip_address lk app_name ns sel tport lport annots fip st
                     = (Inl (ConfigError msg), st))
         \<and> (app_name \<noteq> [] \<and> ns \<noteq> [] \<and> sel \<noteq> [] \<and> \<not> (1 \<le> tport \<and> tport \<le> 65535) \<longrightarrow>
              msg = ''target-port must be between 1 and 65535'')
         \<and> (app_name \<noteq> [] \<and> ns \<noteq> [] \<and> sel \<noteq> [] \<and> (1 \<le> tport \<and> tport \<le> 65535)
              \<and> \<not> (1 \<le> lport \<and> lport \<le> 65535) \<longrightarrow>
              msg = ''lb-port must be between 1 and 65535'')
         \<and> (app_name \<noteq> [] \<and> ns \<noteq> [] \<and> sel \<noteq> [] \<and> (1 \<le> tport \<and> tport \<le> 65535)
              \<and> (1 \<le> lport \<and> lport \<le> 65535) \<longrightarrow>
              msg = ''fixed-ip must be a valid IPv4 or IPv6 address'')"
proof -
  have "\<exists>msg. service_config ip_address app_name ns sel tport lport annots fip = Inl (ConfigError msg)
         \<and> (app_name \<noteq> [] \<and> ns \<noteq> [] \<and> sel \<noteq> [] \<and> \<not> (1 \<le> tport \<and> tport \<le> 65535) \<longrightarrow>
              msg = ''target-port must be between 1 and 65535'')
         \<and> (app_name \<noteq> [] \<and> ns \<noteq> [] \<and> sel \<noteq> [] \<and> (1 \<le> tport \<and> tport \<le> 65535)
              \<and> \<not> (1 \<le> lport \<and> lport \<le> 65535) \<longrightarrow>
              msg = ''lb-port must be between 1 and 65535'')
         \<and> (app_name \<noteq> [] \<and> ns \<noteq> [] \<and> sel \<noteq> [] \<and> (1 \<le> tport \<and> tport \<le> 65535)
              \<and> (1 \<le> lport \<and> lport \<le> 65535) \<longrightarrow>
              msg = ''fixed-ip must be a valid IPv4 or IPv6 address'')"
    using assms
    by (auto simp add: service_config_def validate_port_def parse_fixed_ip_def)
  then show ?thesis
    by (auto simp add: ensure_loadbalancer_service_def)
qed

theorem ensure_validates_before_any_call_witness:
  "ensure_loadbalancer_service (\<lambda>_. None)
     (Some (\<lambda>ns fm. \<lparr> create = (\<lambda>svc n. (Inr (), Suc n)), replace = (\<lambda>svc n. (Inr (), Suc n)),
                      delete = (\<lambda>nm ns n. (Inr (), Suc n)) \<rparr>))
     ''myapp'' ''ns1'' [(''app'', ''myapp'')] 0 80 None None (0::nat)
   = (Inl (ConfigError ''target-port must be between 1 and 65535''), 0)
 \<and> ensure_loadbalancer_service (\<lambda>_. None)
     (Some (\<lambda>ns fm. \<lparr> create = (\<lambda>svc n. (Inr (), Suc n)), replace = (\<lambda>svc n. (Inr (), Suc n)),
                      delete = (\<lambda>nm ns n. (Inr (), Suc n)) \<rparr>))
     ''myapp'' ''ns1'' [(''app'', ''myapp'')] 8080 65536 None None (0::nat)
   = (Inl (ConfigError ''lb-port must be between 1 and 65535''), 0)
 \<and> ensure_loadbalancer_service (\<lambda>_. None)
     (Some (\<lambda>ns fm. \<lparr> create = (\<lambda>svc n. (Inr (), Suc n)), replace = (\<lambda>svc n. (Inr (), Suc n)),
                      delete = (\<lambda>nm ns n. (Inr (), Suc n)) \<rparr>))
     ''myapp'' ''ns1'' [(''app'', ''myapp'')] 8080 80 None (Some ''not-an-ip'') (0::nat)
   = (Inl (ConfigError ''fixed-ip must be a valid IPv4 or IPv6 address''), 0)"
proof -
  have s: "strip ''not-an-ip'' = ''not-an-ip''"
    by (simp add: strip_def lstrip_def rstrip_def is_space_def)
  show ?thesis
    using ensure_validates_before_any_call
            [where ?'st = nat, of "''myapp''" "''ns1''" "[(''app'', ''myapp'')]" 0 80 None "\<lambda>_. None" None]
          ensure_validates_before_any_call
            [where ?'st = nat, of "''myapp''" "''ns1''" "[(''app'', ''myapp'')]" 8080 65536 None "\<lambda>_. None" None]
          ensure_validates_before_any_call
            [where ?'st = nat, of "''myapp''" "''ns1''" "[(''app'', ''myapp'')]" 8080 80 "Some ''not-an-ip''" "\<lambda>_. None" None]
    by (simp add: s)
qed


section \<open>The desired object\<close>

text \<open>
  Claim C5. For arguments that pass validation, the object handed to the cluster has the
  name \<open>app_name @ ''-lb''\<close>, the given namespace, the single label
  \<open>app.kubernetes.io/name\<close> with that name as value, the given annotations or none when
  they are empty or missing, type \<open>LoadBalancer\<close>, the normalized fixed IP or none when it
  is unset (an empty string counts as unset), the given selector, and exactly one port
  entry named \<open>lb\<close> with the two ports and protocol TCP.
\<close>

theorem build_service_fields:
  assumes "service_config ip_address app_name ns sel tport lport annots fip = Inr cfg"
  shows "build_service cfg =
           \<lparr> metadata =
               \<lparr> meta_name = app_name @ ''-lb'',
                 meta_namespace = ns,
                 meta_labels = [(''app.kubernetes.io/name'', app_name @ ''-lb'')],
                 meta_annotations =
                   (case annots of None \<Rightarrow> None | Some a \<Rightarrow> if a = [] then None else Some a) \<rparr>,
             spec =
               \<lparr> spec_type = ''LoadBalancer'',
                 loadBalancerIP = (if fixed_ip cfg = Some [] then None else fixed_ip cfg),
                 spec_selector = sel,
                 ports = [\<lparr> port = lport, targetPort = tport, protocol = ''TCP'',
                            port_name = ''lb'' \<rparr>] \<rparr> \<rparr>
         \<and> parse_fixed_ip ip_address fip = Inr (fixed_ip cfg)
         \<and> length (ports (spec (build_service cfg))) = 1"
  using assms
  by (auto simp add: service_config_def validate_port_def build_service_def
        split: if_splits sum.splits option.splits)

theorem build_service_fields_witness:
  "service_config (\<lambda>s. if s = ''10.0.0.1'' then Some ''10.0.0.1'' else None)
     ''myapp'' ''ns1'' [(''app'', ''myapp'')] 8080 80 (Some [(''a'', ''b'')]) (Some '' 10.0.0.1 '')
   = Inr \<lparr> name = ''myapp-lb'', namespace = ''ns1'', selector = [(''app'', ''myapp'')],
           target_port = 8080, lb_port = 80, annotations = [(''a'', ''b'')],
           fixed_ip = Some ''10.0.0.1'' \<rparr>
 \<and> build_service
     \<lparr> name = ''myapp-lb'', namespace = ''ns1'', selector = [(''app'', ''myapp'')],
       target_port = 8080, lb_port = 80, annotations = [(''a'', ''b'')],
       fixed_ip = Some ''10.0.0.1'' \<rparr>
   = \<lparr> metadata =
         \<lparr> meta_name = ''myapp-lb'', meta_namespace = ''ns1'',
           meta_labels = [(''app.kubernetes.io/name'', ''myapp-lb'')],
           meta_annotations = Some [(''a'', ''b'')] \<rparr>,
       spec =
         \<lparr> spec_type = ''LoadBalancer'', loadBalancerIP = Some ''10.0.0.1'',
           spec_selector = [(''app'', ''myapp'')],
           ports = [\<lparr> port = 80, targetPort = 8080, protocol = ''TCP'', port_name = ''lb'' \<rparr>] \<rparr> \<rparr>"
proof -
  have s: "strip '' 10.0.0.1 '' = ''10.0.0.1''"
    by (simp add: strip_def lstrip_def rstrip_def is_space_def)
  have sc: "service_config (\<lambda>s. if s = ''10.0.0.1'' then Some ''10.0.0.1'' else None)
              ''myapp'' ''ns1'' [(''app'', ''myapp'')] 8080 80 (Some [(''a'', ''b'')])
              (Some '' 10.0.0.1 '')
            = Inr \<lparr> name = ''myapp-lb'', namespace = ''ns1'', selector = [(''app'', ''myapp'')],
                    target_port = 8080, lb_port = 80, annotations = [(''a'', ''b'')],
                    fixed_ip = Some ''10.0.0.1'' \<rparr>"
    by (simp add: service_config_def validate_port_def parse_fixed_ip_def s)
  show ?thesis
    using sc build_service_fields [OF sc] by simp
qed

section \<open>Facts about stripping\<close>

lemma comma_not_space: "\<not> is_space CHR '',''"
  by (simp add: is_space_def)

lemma equals_not_space: "\<not> is_space CHR ''=''"
  by (simp add: is_space_def)

lemma rstrip_Nil [simp]: "rstrip [] = []"
  by (simp add: rstrip_def)

lemma strip_Nil [simp]: "strip [] = []"
  by (simp add: strip_def lstrip_def)

lemma rstrip_snoc:
  "rstrip (s @ [c]) = (if is_space c then rstrip s else s @ [c])"
  by (simp add: rstrip_def)

lemma rstrip_append_spaces: "list_all is_space w \<Longrightarrow> rstrip (s @ w) = rstrip s"
proof (induction w rule: rev_induct)
  case Nil
  show ?case by simp
next
  case (snoc x xs)
  then have sp: "is_space x" and ih: "rstrip (s @ xs) = rstrip s" by simp_all
  have "rstrip (s @ xs @ [x]) = rstrip ((s @ xs) @ [x])" by simp
  also have "\<dots> = rstrip (s @ xs)" using sp by (simp only: rstrip_snoc if_True)
  finally show ?case using ih by simp
qed

lemma lstrip_append_spaces: "list_all is_space w \<Longrightarrow> lstrip (w @ s) = lstrip s"
  by (induction w) (simp_all add: lstrip_def)

lemma rstrip_eq_Nil: "rstrip s = [] \<longleftrightarrow> list_all is_space s"
  by (induction s rule: rev_induct) (auto simp add: rstrip_snoc)

lemma lstrip_eq_Nil: "lstrip s = [] \<longleftrightarrow> list_all is_space s"
  by (simp add: lstrip_def dropWhile_eq_Nil_conv list_all_iff)

lemma strip_eq_Nil: "strip s = [] \<longleftrightarrow> list_all is_space s"
proof -
  have "list_all is_space (dropWhile is_space s) \<longleftrightarrow> list_all is_space s"
    by (induction s) simp_all
  then show ?thesis
    by (simp add: strip_def rstrip_eq_Nil lstrip_def)
qed

lemma rstrip_id: "s \<noteq> [] \<Longrightarrow> \<not> is_space (last s) \<Longrightarrow> rstrip s = s"
  by (cases s rule: rev_cases) (simp_all add: rstrip_snoc)

lemma lstrip_id: "s \<noteq> [] \<Longrightarrow> \<not> is_space (hd s) \<Longrightarrow> lstrip s = s"
  by (cases s) (simp_all add: lstrip_def)

lemma strip_id: "s \<noteq> [] \<Longrightarrow> \<not> is_space (hd s) \<Longrightarrow> \<not> is_space (last s) \<Longrightarrow> strip s = s"
  by (simp add: strip_def lstrip_id rstrip_id)

lemma strip_pad_left: "list_all is_space w \<Longrightarrow> strip (w @ s) = strip s"
  by (simp add: strip_def lstrip_append_spaces)

lemma lstrip_append_right:
  assumes "lstrip s \<noteq> []"
  shows "lstrip (s @ w) = lstrip s @ w"
proof -
  from assms obtain x where "x \<in> set s" "\<not> is_space x"
    by (auto simp add: lstrip_def dropWhile_eq_Nil_conv)
  then show ?thesis
    unfolding lstrip_def by (rule dropWhile_append1)
qed

lemma strip_pad_right: "list_all is_space w \<Longrightarrow> strip (s @ w) = strip s"
proof (cases "list_all is_space s")
  case True
  assume "list_all is_space w"
  with True have "list_all is_space (s @ w)" by simp
  with True show ?thesis by (simp add: strip_eq_Nil [THEN iffD2])
next
  case False
  assume w: "list_all is_space w"
  from False have "lstrip s \<noteq> []" by (simp add: lstrip_eq_Nil)
  then have "lstrip (s @ w) = lstrip s @ w" by (rule lstrip_append_right)
  with w show ?thesis by (simp add: strip_def rstrip_append_spaces)
qed

lemma lstrip_decomp: "\<exists>w. list_all is_space w \<and> s = w @ lstrip s"
  by (rule exI [of _ "takeWhile is_space s"])
     (auto simp add: lstrip_def list_all_iff dest: set_takeWhileD)

lemma rstrip_decomp: "\<exists>w. list_all is_space w \<and> s = rstrip s @ w"
proof (induction s rule: rev_induct)
  case Nil
  show ?case by simp
next
  case (snoc c s)
  then obtain w where w: "list_all is_space w" "s = rstrip s @ w" by blast
  show ?case
  proof (cases "is_space c")
    case True
    with w have "list_all is_space (w @ [c])" "s @ [c] = rstrip (s @ [c]) @ (w @ [c])"
      by (simp_all add: rstrip_snoc)
    then show ?thesis by blast
  next
    case False
    then have "s @ [c] = rstrip (s @ [c]) @ []" by (simp add: rstrip_snoc)
    then show ?thesis by (intro exI [of _ "[]"]) simp
  qed
qed

lemma strip_decomp:
  "\<exists>w1 w2. list_all is_space w1 \<and> list_all is_space w2 \<and> s = w1 @ strip s @ w2"
proof -
  obtain w1 where w1: "list_all is_space w1" "s = w1 @ lstrip s"
    using lstrip_decomp by blast
  obtain w2 where w2: "list_all is_space w2" "lstrip s = rstrip (lstrip s) @ w2"
    using rstrip_decomp by blast
  from w1 w2 have "s = w1 @ strip s @ w2" by (simp add: strip_def)
  with w1 w2 show ?thesis by blast
qed

lemma lstrip_hd: "lstrip s \<noteq> [] \<Longrightarrow> \<not> is_space (hd (lstrip s))"
  by (simp add: lstrip_def hd_dropWhile)

lemma rstrip_last: "rstrip s \<noteq> [] \<Longrightarrow> \<not> is_space (last (rstrip s))"
proof (induction s rule: rev_induct)
  case Nil
  then show ?case by simp
next
  case (snoc x xs)
  show ?case
  proof (cases "is_space x")
    case True
    with snoc show ?thesis by (simp add: rstrip_snoc)
  next
    case False
    then show ?thesis by (simp add: rstrip_snoc)
  qed
qed

lemma rstrip_hd: "rstrip s \<noteq> [] \<Longrightarrow> hd (rstrip s) = hd s"
proof (induction s rule: rev_induct)
  case Nil
  then show ?case by simp
next
  case (snoc x xs)
  show ?case
  proof (cases "is_space x")
    case True
    with snoc have "rstrip xs \<noteq> []" "hd (rstrip xs) = hd xs" by (simp_all add: rstrip_snoc)
    moreover from this have "xs \<noteq> []" by auto
    ultimately show ?thesis using True by (simp add: rstrip_snoc)
  next
    case False
    then show ?thesis by (simp add: rstrip_snoc)
  qed
qed

lemma strip_trimmed: "trimmed (strip s)"
proof (cases "strip s = []")
  case True
  then show ?thesis by (simp add: trimmed_def)
next
  case False
  then have r: "rstrip (lstrip s) \<noteq> []" by (simp add: strip_def)
  then have l: "lstrip s \<noteq> []" by auto
  have "hd (strip s) = hd (lstrip s)" using r by (simp add: strip_def rstrip_hd)
  moreover have "\<not> is_space (last (strip s))" using r by (simp add: strip_def rstrip_last)
  ultimately show ?thesis using l by (simp add: trimmed_def lstrip_hd)
qed

lemma strip_idem: "strip (strip s) = strip s"
proof (cases "strip s = []")
  case True
  then show ?thesis by simp
next
  case False
  with strip_trimmed [of s] have "\<not> is_space (hd (strip s))" "\<not> is_space (last (strip s))"
    by (simp_all add: trimmed_def)
  with False show ?thesis by (rule strip_id)
qed

section \<open>Facts about splitting\<close>

lemma split_on_not_Nil [simp]: "split_on sep s \<noteq> []"
  by (induction s) simp_all

lemma split_on_no_sep: "sep \<notin> set s \<Longrightarrow> split_on sep s = [s]"
  by (induction s) auto

lemma split_on_append_left:
  "sep \<notin> set a \<Longrightarrow>
     split_on sep (a @ b) = (a @ hd (split_on sep b)) # tl (split_on sep b)"
  by (induction a) auto

lemma split_on_append_sep:
  "sep \<notin> set a \<Longrightarrow> split_on sep (a @ sep # b) = a # split_on sep b"
  by (simp add: split_on_append_left)

lemma split_on_append_right:
  "sep \<notin> set b \<Longrightarrow>
     split_on sep (a @ b) = butlast (split_on sep a) @ [last (split_on sep a) @ b]"
proof (induction a)
  case Nil
  then show ?case by (simp add: split_on_no_sep)
next
  case (Cons x a)
  then have ih: "split_on sep (a @ b) = butlast (split_on sep a) @ [last (split_on sep a) @ b]"
    by simp
  show ?case
  proof (cases "split_on sep a")
    case Nil
    then show ?thesis by simp
  next
    case (Cons p ps)
    show ?thesis
    proof (cases ps)
      case Nil
      with Cons ih show ?thesis by simp
    next
      case (Cons q qs)
      with \<open>split_on sep a = p # ps\<close> ih show ?thesis by simp
    qed
  qed
qed

lemma split_on_join:
  "xs \<noteq> [] \<Longrightarrow> \<forall>x\<in>set xs. sep \<notin> set x \<Longrightarrow> split_on sep (join sep xs) = xs"
proof (induction xs rule: join.induct)
  case (1 sep)
  then show ?case by simp
next
  case (2 sep x)
  then show ?case by (simp add: split_on_no_sep)
next
  case (3 sep x y ys)
  then show ?case by (simp add: split_on_append_sep)
qed

lemma map_strip_split_strip:
  assumes "\<not> is_space sep"
  shows "map strip (split_on sep (strip s)) = map strip (split_on sep s)"
proof -
  obtain w1 w2 where w: "list_all is_space w1" "list_all is_space w2" "s = w1 @ strip s @ w2"
    using strip_decomp by blast
  have n1: "sep \<notin> set w1" and n2: "sep \<notin> set w2"
    using w(1,2) assms by (auto simp add: list_all_iff)
  let ?t = "strip s"
  have a: "split_on sep (?t @ w2) = butlast (split_on sep ?t) @ [last (split_on sep ?t) @ w2]"
    using n2 by (rule split_on_append_right)
  have collapse: "map strip (butlast xs) @ [strip (last xs)] = map strip xs" if "xs \<noteq> []" for xs
  proof -
    from that have "xs = butlast xs @ [last xs]" by simp
    then have "map strip xs = map strip (butlast xs @ [last xs])" by simp
    then show ?thesis by (simp only: map_append list.map)
  qed
  have m2: "map strip (split_on sep (?t @ w2)) = map strip (split_on sep ?t)"
  proof -
    have "map strip (split_on sep (?t @ w2))
            = map strip (butlast (split_on sep ?t)) @ [strip (last (split_on sep ?t))]"
      using a w(2) by (simp add: strip_pad_right)
    then show ?thesis
      by (simp only: collapse [OF split_on_not_Nil])
  qed
  have b: "split_on sep (w1 @ ?t @ w2)
             = (w1 @ hd (split_on sep (?t @ w2))) # tl (split_on sep (?t @ w2))"
    using n1 by (rule split_on_append_left)
  have collapse2: "strip (hd xs) # map strip (tl xs) = map strip xs" if "xs \<noteq> []" for xs
    using that by (cases xs) simp_all
  have "map strip (split_on sep (w1 @ ?t @ w2))
          = strip (hd (split_on sep (?t @ w2))) # map strip (tl (split_on sep (?t @ w2)))"
    using b w(1) by (simp add: strip_pad_left)
  then have "map strip (split_on sep (w1 @ ?t @ w2)) = map strip (split_on sep ?t)"
    by (simp only: collapse2 [OF split_on_not_Nil] m2)
  with w(3) show ?thesis by simp
qed

section \<open>Facts about dictionaries\<close>

lemma update_not_Nil [simp]: "AList.update k v al \<noteq> []"
  by (cases al) auto

lemma fold_update_not_Nil:
  "kvs \<noteq> [] \<or> acc \<noteq> [] \<Longrightarrow> fold (\<lambda>(k, v). AList.update k v) kvs acc \<noteq> []"
  by (induction kvs arbitrary: acc) (auto simp add: case_prod_beta)

lemma dict_of_eq_Nil: "dict_of kvs = [] \<longleftrightarrow> kvs = []"
  using fold_update_not_Nil [of kvs "[]"] by (auto simp add: dict_of_def)

lemma map_of_fold_update:
  "map_of (fold (\<lambda>(k, v). AList.update k v) kvs acc) = map_of acc ++ map_of (rev kvs)"
proof (induction kvs arbitrary: acc)
  case Nil
  show ?case by simp
next
  case (Cons kv kvs)
  obtain k v where kv: "kv = (k, v)" by (cases kv)
  have "map_of (fold (\<lambda>(k, v). AList.update k v) (kv # kvs) acc)
          = map_of (AList.update k v acc) ++ map_of (rev kvs)"
    using Cons.IH [of "AList.update k v acc"] kv by simp
  also have "\<dots> = (map_of acc)(k \<mapsto> v) ++ map_of (rev kvs)"
    by (simp add: update_conv')
  also have "\<dots> = map_of acc ++ map_of (rev kvs @ [(k, v)])"
    by (simp add: map_add_upd_left fun_eq_iff map_add_def split: option.splits)
  finally show ?case using kv by simp
qed

lemma map_of_dict_of: "map_of (dict_of kvs) = map_of (rev kvs)"
  by (simp add: dict_of_def map_of_fold_update)

lemma distinct_fold_update:
  "distinct (map fst acc) \<Longrightarrow> distinct (map fst (fold (\<lambda>(k, v). AList.update k v) kvs acc))"
  by (induction kvs arbitrary: acc) (auto simp add: case_prod_beta distinct_update)

lemma distinct_dict_of: "distinct (map fst (dict_of kvs))"
  by (simp add: dict_of_def distinct_fold_update)

lemma set_update_subset: "set (AList.update k v al) \<subseteq> insert (k, v) (set al)"
  by (induction al) auto

lemma set_fold_update_subset:
  "set (fold (\<lambda>(k, v). AList.update k v) kvs acc) \<subseteq> set acc \<union> set kvs"
proof (induction kvs arbitrary: acc)
  case Nil
  show ?case by simp
next
  case (Cons kv kvs)
  obtain k v where kv: "kv = (k, v)" by (cases kv)
  have "set (fold (\<lambda>(k, v). AList.update k v) kvs (AList.update k v acc))
          \<subseteq> set (AList.update k v acc) \<union> set kvs"
    by (rule Cons.IH)
  with set_update_subset [of k v acc] kv show ?case by auto
qed

lemma set_dict_of_subset: "set (dict_of kvs) \<subseteq> set kvs"
  using set_fold_update_subset [of kvs "[]"] by (simp add: dict_of_def)

section \<open>The loop of the selector parser\<close>

lemma selector_loop_segments:
  "selector_loop parts acc =
     (case find (\<lambda>p. \<not> selector_segment_ok p) (filter (\<lambda>p. p \<noteq> []) (map strip parts)) of
        Some p \<Rightarrow> Inl (selector_segment_error p)
      | None \<Rightarrow>
          Inr (fold (\<lambda>(k, v). AList.update k v)
                 (map segment_item (filter (\<lambda>p. p \<noteq> []) (map strip parts))) acc))"
proof (induction parts arbitrary: acc)
  case Nil
  show ?case by simp
next
  case (Cons part parts)
  show ?case
  proof (cases "strip part = []")
    case True
    then show ?thesis using Cons.IH by (simp cong del: option.case_cong_weak)
  next
    case False
    show ?thesis
    proof (cases "selector_segment_ok (strip part)")
      case True
      then show ?thesis
        using False Cons.IH [of "AList.update (segment_key (strip part)) (segment_value (strip part)) acc"]
        by (simp add: selector_segment_ok_def segment_item_def segment_key_def
              segment_value_def split_beta Let_def cong del: option.case_cong_weak)
    next
      case no: False
      then show ?thesis
        using False
        by (auto simp add: selector_segment_ok_def selector_segment_error_def segment_key_def
              segment_value_def split_beta Let_def)
    qed
  qed
qed

lemma parse_selector_csv:
  assumes "strip raw \<noteq> []" "\<not> startswith (strip raw) CHR ''{''"
  shows "parse_selector json_loads (Some raw) =
     (case find (\<lambda>p. \<not> selector_segment_ok p) (selector_segments raw) of
        Some p \<Rightarrow> Inl (selector_segment_error p)
      | None \<Rightarrow>
          if selector_segments raw = [] then Inl (ConfigError ''selector must not be empty'')
          else Inr (dict_of (map segment_item (selector_segments raw))))"
  using assms
  by (simp add: parse_selector_def selector_loop_segments selector_segments_def dict_of_def
        fold_update_not_Nil dict_of_eq_Nil [unfolded dict_of_def] split: option.splits)

section \<open>The CSV form of a selector, segment by segment\<close>

text \<open>
  Claim C9, as the code has it. For an input whose stripped text is not empty and does not
  start with \<open>{\<close>, the parser looks at the stripped, non-empty segments between commas.
  A segment is accepted when it contains \<open>=\<close> and the stripped texts before and after its
  first \<open>=\<close> are both non-empty; the value keeps any further \<open>=\<close>. If every segment is
  accepted and there is at least one, the result is the dictionary of their pairs. At the
  first segment that is not accepted the parser fails: with the message about the
  \<open>key=value\<close> format when the segment has no \<open>=\<close>, with the message about an empty key or
  value otherwise. With no segment at all it fails with "selector must not be empty".
\<close>

theorem parse_selector_csv_segments:
  assumes "strip raw \<noteq> []" "\<not> startswith (strip raw) CHR ''{''"
  shows "(selector_segments raw \<noteq> [] \<and> list_all selector_segment_ok (selector_segments raw) \<longrightarrow>
            parse_selector json_loads (Some raw)
              = Inr (dict_of (map segment_item (selector_segments raw))))
       \<and> (\<forall>p. find (\<lambda>p. \<not> selector_segment_ok p) (selector_segments raw) = Some p \<longrightarrow>
            parse_selector json_loads (Some raw) = Inl (selector_segment_error p))
       \<and> (selector_segments raw = [] \<longrightarrow>
            parse_selector json_loads (Some raw) = Inl (ConfigError ''selector must not be empty''))"
proof -
  have none: "find (\<lambda>p. \<not> selector_segment_ok p) (selector_segments raw) = None"
    if "list_all selector_segment_ok (selector_segments raw)"
    using that by (simp add: find_None_iff list_all_iff)
  show ?thesis
    using none by (auto simp add: parse_selector_csv [OF assms])
qed

theorem parse_selector_csv_segments_witness:
  "parse_selector (\<lambda>_. Inl []) (Some ''  a = b , c=d=e,, a=z '')
     = Inr [(''a'', ''z''), (''c'', ''d=e'')]
 \<and> parse_selector (\<lambda>_. Inl []) (Some ''a=b,c'')
     = Inl (ConfigError
         ''selector must be in 'key=value' format (comma-separated) or JSON object'')
 \<and> parse_selector (\<lambda>_. Inl []) (Some ''a=b, =c'')
     = Inl (ConfigError ''selector contains an empty key or value'')
 \<and> parse_selector (\<lambda>_. Inl []) (Some '' , '')
     = Inl (ConfigError ''selector must not be empty'')"
proof -
  have a: "parse_selector (\<lambda>_. Inl []) (Some ''  a = b , c=d=e,, a=z '')
             = Inr [(''a'', ''z''), (''c'', ''d=e'')]"
  proof -
    have h1: "strip ''  a = b , c=d=e,, a=z '' \<noteq> []" by code_simp
    have h2: "\<not> startswith (strip ''  a = b , c=d=e,, a=z '') CHR ''{''" by code_simp
    have s: "selector_segments ''  a = b , c=d=e,, a=z '' = [''a = b'', ''c=d=e'', ''a=z'']"
      by code_simp
    have ok: "list_all selector_segment_ok [''a = b'', ''c=d=e'', ''a=z'']" by code_simp
    have d: "dict_of (map segment_item [''a = b'', ''c=d=e'', ''a=z''])
               = [(''a'', ''z''), (''c'', ''d=e'')]" by code_simp
    show ?thesis
      using parse_selector_csv_segments [OF h1 h2, of "\<lambda>_. Inl []"] ok
      by (simp only: s d) simp
  qed
  have b: "parse_selector (\<lambda>_. Inl []) (Some ''a=b,c'')
     = Inl (ConfigError
         ''selector must be in 'key=value' format (comma-separated) or JSON object'')"
  proof -
    have h1: "strip ''a=b,c'' \<noteq> []" by code_simp
    have h2: "\<not> startswith (strip ''a=b,c'') CHR ''{''" by code_simp
    have f: "find (\<lambda>p. \<not> selector_segment_ok p) (selector_segments ''a=b,c'') = Some ''c''"
      by code_simp
    have e: "selector_segment_error ''c'' = ConfigError
         ''selector must be in 'key=value' format (comma-separated) or JSON object''"
      by code_simp
    show ?thesis
      using parse_selector_csv_segments [OF h1 h2, of "\<lambda>_. Inl []"] f e by simp
  qed
  have c: "parse_selector (\<lambda>_. Inl []) (Some ''a=b, =c'')
     = Inl (ConfigError ''selector contains an empty key or value'')"
  proof -
    have h1: "strip ''a=b, =c'' \<noteq> []" by code_simp
    have h2: "\<not> startswith (strip ''a=b, =c'') CHR ''{''" by code_simp
    have f: "find (\<lambda>p. \<not> selector_segment_ok p) (selector_segments ''a=b, =c'') = Some ''=c''"
      by code_simp
    have e: "selector_segment_error ''=c''
               = ConfigError ''selector contains an empty key or value''"
      by code_simp
    show ?thesis
      using parse_selector_csv_segments [OF h1 h2, of "\<lambda>_. Inl []"] f e by simp
  qed
  have d: "parse_selector (\<lambda>_. Inl []) (Some '' , '')
     = Inl (ConfigError ''selector must not be empty'')"
  proof -
    have h1: "strip '' , '' \<noteq> []" by code_simp
    have h2: "\<not> startswith (strip '' , '') CHR ''{''" by code_simp
    have s: "selector_segments '' , '' = []" by code_simp
    show ?thesis
      using parse_selector_csv_segments [OF h1 h2, of "\<lambda>_. Inl []"] s by simp
  qed
  show ?thesis using a b c d by simp
qed

text \<open>
  Claim C9 as stated asks for exactly one \<open>=\<close> in a segment and a failure for every
  segment with more. The code splits at the first \<open>=\<close> only (\<open>part.split("=", 1)\<close>):
  the segment \<open>a=b=c\<close> has two and is accepted, with value \<open>b=c\<close>.
\<close>

theorem parse_selector_second_equals_accepted:
  "parse_selector (\<lambda>_. Inl []) (Some ''a=b=c'') = Inr [(''a'', ''b=c'')]
   \<and> length (filter (\<lambda>c. c = CHR ''='') ''a=b=c'') = 2"
  by code_simp

section \<open>Empty keys and values in a selector\<close>

text \<open>
  In CSV form, every selector that \<open>parse_selector\<close> returns has at least one entry, and
  no empty key and no empty value: the loop checks it.
\<close>

lemma parse_selector_csv_nonempty:
  assumes "strip raw \<noteq> []" "\<not> startswith (strip raw) CHR ''{''"
    and "parse_selector json_loads (Some raw) = Inr d"
  shows "d \<noteq> [] \<and> (\<forall>(k, v)\<in>set d. k \<noteq> [] \<and> v \<noteq> [])"
proof -
  let ?segs = "selector_segments raw"
  from assms(3) have f: "find (\<lambda>p. \<not> selector_segment_ok p) ?segs = None"
    and ne: "?segs \<noteq> []" and d: "d = dict_of (map segment_item ?segs)"
    by (auto simp add: parse_selector_csv [OF assms(1,2)] split: option.splits if_splits)
  from f have ok: "\<forall>p\<in>set ?segs. selector_segment_ok p"
    by (simp add: find_None_iff)
  have sub: "set d \<subseteq> segment_item ` set ?segs"
    using set_dict_of_subset [of "map segment_item ?segs"] d by simp
  have "\<forall>(k, v)\<in>set d. k \<noteq> [] \<and> v \<noteq> []"
  proof (clarify)
    fix k v
    assume "(k, v) \<in> set d"
    with sub obtain p where p: "p \<in> set ?segs" "(k, v) = segment_item p" by auto
    from p(1) ok have "selector_segment_ok p" by simp
    with p(2) show "k \<noteq> [] \<and> v \<noteq> []"
      by (simp add: selector_segment_ok_def segment_item_def)
  qed
  moreover from ne d have "d \<noteq> []" by (simp add: dict_of_eq_Nil)
  ultimately show ?thesis by simp
qed

text \<open>
  Claim C8 says the same of the JSON form. There the code checks only that the decoded
  value is a non-empty object whose values are strings: for the text \<open>{"a": ""}\<close>, which
  \<open>json.loads\<close> decodes to the object with key \<open>a\<close> and the empty string as value, the
  parser returns that dictionary, empty value included.
\<close>

theorem parse_selector_json_empty_value:
  "parse_selector
     (\<lambda>s. if s = ''{\"a\": \"\"}'' then Inr (JObj [(''a'', JStr [])]) else Inl ''Expecting value'')
     (Some ''{\"a\": \"\"}'')
   = Inr [(''a'', [])]"
  by code_simp

section \<open>The loop of the annotation parser\<close>

lemma annotations_loop_segments:
  "annotations_loop pairs acc =
     (case find (\<lambda>p. \<not> annotation_segment_ok p) pairs of
        Some p \<Rightarrow> Inl (annotation_segment_error p)
      | None \<Rightarrow> Inr (fold (\<lambda>(k, v). AList.update k v) (map segment_item pairs) acc))"
proof (induction pairs arbitrary: acc)
  case Nil
  show ?case by simp
next
  case (Cons pair pairs)
  show ?case
  proof (cases "annotation_segment_ok pair")
    case True
    then show ?thesis
      using Cons.IH [of "AList.update (segment_key pair) (segment_value pair) acc"]
      by (simp add: annotation_segment_ok_def segment_item_def segment_key_def
            segment_value_def split_beta Let_def cong del: option.case_cong_weak)
  next
    case False
    then show ?thesis
      by (auto simp add: annotation_segment_ok_def annotation_segment_error_def segment_key_def
            segment_value_def split_beta Let_def)
  qed
qed

lemma parse_annotations_segments:
  "parse_annotations (Some raw) =
     (if rstrip_char CHR '','' (strip raw) = [] then Inr []
      else
        (case find (\<lambda>p. \<not> annotation_segment_ok p) (annotation_segments raw) of
           Some p \<Rightarrow> Inl (annotation_segment_error p)
         | None \<Rightarrow> Inr (dict_of (map segment_item (annotation_segments raw)))))"
  by (simp add: parse_annotations_def annotations_loop_segments annotation_segments_def
        dict_of_def Let_def cong del: option.case_cong_weak)

lemma parse_annotations_entries:
  assumes "parse_annotations (Some raw) = Inr d"
  shows "set d \<subseteq> segment_item ` set (annotation_segments raw)
         \<and> (\<forall>p\<in>set (annotation_segments raw). annotation_segment_ok p)
            \<or> d = [] \<and> rstrip_char CHR '','' (strip raw) = []"
proof (cases "rstrip_char CHR '','' (strip raw) = []")
  case True
  with assms show ?thesis by (simp add: parse_annotations_segments)
next
  case False
  let ?segs = "annotation_segments raw"
  from assms False have f: "find (\<lambda>p. \<not> annotation_segment_ok p) ?segs = None"
    and d: "d = dict_of (map segment_item ?segs)"
    by (auto simp add: parse_annotations_segments split: option.splits)
  from f have "\<forall>p\<in>set ?segs. annotation_segment_ok p" by (simp add: find_None_iff)
  moreover have "set d \<subseteq> segment_item ` set ?segs"
    using set_dict_of_subset [of "map segment_item ?segs"] d by simp
  ultimately show ?thesis by simp
qed

section \<open>Annotation keys and values are stored stripped\<close>

text \<open>
  Claim C10. Every entry of a dictionary that \<open>parse_annotations\<close> returns comes from a
  segment of the input: its key is the stripped text before the first \<open>=\<close>, its value the
  stripped text after it, and the key that was validated is that stripped key. So no
  stored key and no stored value has white space at either end; \<open>k= v \<close> gives the
  value \<open>v\<close>.
\<close>

theorem parse_annotations_values_trimmed:
  assumes "parse_annotations (Some raw) = Inr d"
  shows "\<forall>(k, v)\<in>set d.
           trimmed k \<and> trimmed v \<and> is_valid_annotation_key k
           \<and> (\<exists>p\<in>set (annotation_segments raw). k = segment_key p \<and> v = segment_value p)"
proof (clarify)
  fix k v
  assume kv: "(k, v) \<in> set d"
  then have "d \<noteq> []" by auto
  with parse_annotations_entries [OF assms]
  have sub: "set d \<subseteq> segment_item ` set (annotation_segments raw)"
    and ok: "\<forall>p\<in>set (annotation_segments raw). annotation_segment_ok p"
    by auto
  from kv sub obtain p where p: "p \<in> set (annotation_segments raw)" "(k, v) = segment_item p"
    by auto
  from p(2) have k: "k = segment_key p" and v: "v = segment_value p"
    by (simp_all add: segment_item_def)
  from p(1) ok have "is_valid_annotation_key k"
    by (simp add: annotation_segment_ok_def k)
  moreover have "trimmed k" "trimmed v"
    by (simp_all add: k v segment_key_def segment_value_def strip_trimmed)
  ultimately show "trimmed k \<and> trimmed v \<and> is_valid_annotation_key k
           \<and> (\<exists>p\<in>set (annotation_segments raw). k = segment_key p \<and> v = segment_value p)"
    using p(1) k v by blast
qed

theorem parse_annotations_values_trimmed_witness:
  "parse_annotations (Some ''k= v '') = Inr [(''k'', ''v'')]
   \<and> trimmed ''k'' \<and> trimmed ''v'' \<and> \<not> trimmed '' v ''"
proof -
  have e: "parse_annotations (Some ''k= v '') = Inr [(''k'', ''v'')]" by code_simp
  have n: "\<not> trimmed '' v ''" by code_simp
  from parse_annotations_values_trimmed [OF e] e n show ?thesis by simp
qed

section \<open>The cluster under reconciliation and deletion\<close>

lemma service_config_name:
  assumes "service_config ip_address app_name ns sel tport lport annots fip = Inr cfg"
  shows "name cfg = app_name @ ''-lb''" and "namespace cfg = ns"
  using assms
  by (auto simp add: service_config_def split: if_splits sum.splits)

lemma svc_key_build_service: "svc_key (build_service cfg) = (namespace cfg, name cfg)"
  by (simp add: svc_key_def build_service_def)

lemma ensure_on_cluster:
  assumes "ensure_loadbalancer_service ip_address (Some (cluster_client fc fr fd))
             app_name ns sel tport lport annots fip objs = (r, objs')"
  shows "(\<exists>e. r = Inl e \<and> objs' = objs)
       \<or> (\<exists>cfg. service_config ip_address app_name ns sel tport lport annots fip = Inr cfg
                \<and> r = Inr ()
                \<and> objs' = objs((ns, app_name @ ''-lb'') \<mapsto> build_service cfg))"
proof (cases "service_config ip_address app_name ns sel tport lport annots fip")
  case (Inl e)
  with assms show ?thesis by (auto simp add: ensure_loadbalancer_service_def)
next
  case (Inr cfg)
  have key: "svc_key (build_service cfg) = (ns, app_name @ ''-lb'')"
    using service_config_name [OF Inr] by (simp add: svc_key_build_service)
  from assms Inr show ?thesis
    by (auto simp add: ensure_loadbalancer_service_def cluster_client_def cluster_create_def
          cluster_replace_def key Let_def split: option.splits if_splits)
qed

lemma delete_on_cluster:
  assumes "delete_loadbalancer_service (Some (cluster_client fc fr fd)) app_name ns objs
             = (r, objs')"
  shows "objs' = objs \<or> objs' = objs((ns, app_name @ ''-lb'') := None)"
  using assms
  by (auto simp add: delete_loadbalancer_service_def cluster_client_def cluster_delete_def
        Let_def split: option.splits if_splits)

lemma consistent_store:
  assumes w: "consistent w"
  shows "consistent \<lparr> objects = (objects w)((ns, app @ ''-lb'') \<mapsto> build_service cfg),
                      reconciled = (reconciled w)((ns, app) \<mapsto> cfg) \<rparr>"
  unfolding consistent_def
proof (intro allI impI)
  fix ns' n svc
  let ?w' = "\<lparr> objects = (objects w)((ns, app @ ''-lb'') \<mapsto> build_service cfg),
               reconciled = (reconciled w)((ns, app) \<mapsto> cfg) \<rparr>"
  assume present: "objects ?w' (ns', n) = Some svc"
  show "\<exists>app' cfg'. n = app' @ ''-lb'' \<and> reconciled ?w' (ns', app') = Some cfg'
                    \<and> svc = build_service cfg'"
  proof (cases "(ns', n) = (ns, app @ ''-lb'')")
    case True
    with present have "svc = build_service cfg" by simp
    with True show ?thesis by auto
  next
    case False
    with present have "objects w (ns', n) = Some svc" by (auto split: if_splits)
    with w obtain app' cfg' where old: "n = app' @ ''-lb''"
        "reconciled w (ns', app') = Some cfg'" "svc = build_service cfg'"
      unfolding consistent_def by blast
    from False old(1) have "(ns', app') \<noteq> (ns, app)" by auto
    with old(2) have "reconciled ?w' (ns', app') = Some cfg'" by auto
    with old(1,3) show ?thesis by blast
  qed
qed

lemma consistent_remove:
  assumes "consistent w"
  shows "consistent (w\<lparr>objects := (objects w)(k := None)\<rparr>)"
  using assms unfolding consistent_def
  by (cases k) (auto split: if_splits)

lemma exec_consistent:
  assumes "consistent w"
  shows "consistent (exec ip_address ev w)"
proof (cases ev)
  case (Reconcile app_name ns sel tport lport annots fip fc fr)
  obtain r objs' where run: "ensure_loadbalancer_service ip_address
      (Some (cluster_client fc fr None)) app_name ns sel tport lport annots fip (objects w)
      = (r, objs')"
    by (cases "ensure_loadbalancer_service ip_address
      (Some (cluster_client fc fr None)) app_name ns sel tport lport annots fip (objects w)")
  from ensure_on_cluster [OF run] show ?thesis
  proof
    assume "\<exists>e. r = Inl e \<and> objs' = objects w"
    with run Reconcile have "exec ip_address ev w = w" by auto
    with assms show ?thesis by simp
  next
    assume "\<exists>cfg. service_config ip_address app_name ns sel tport lport annots fip = Inr cfg
                \<and> r = Inr ()
                \<and> objs' = (objects w)((ns, app_name @ ''-lb'') \<mapsto> build_service cfg)"
    then obtain cfg where cfg:
        "service_config ip_address app_name ns sel tport lport annots fip = Inr cfg"
        "r = Inr ()"
        "objs' = (objects w)((ns, app_name @ ''-lb'') \<mapsto> build_service cfg)"
      by blast
    with run Reconcile have "exec ip_address ev w =
        \<lparr> objects = (objects w)((ns, app_name @ ''-lb'') \<mapsto> build_service cfg),
          reconciled = (reconciled w)((ns, app_name) \<mapsto> cfg) \<rparr>"
      by simp
    with consistent_store [OF assms] show ?thesis by simp
  qed
next
  case (Delete app_name ns fd)
  obtain r objs' where run: "delete_loadbalancer_service (Some (cluster_client None None fd))
      app_name ns (objects w) = (r, objs')"
    by (cases "delete_loadbalancer_service (Some (cluster_client None None fd))
      app_name ns (objects w)")
  from delete_on_cluster [OF run] show ?thesis
  proof
    assume "objs' = objects w"
    with run Delete have "exec ip_address ev w = w" by simp
    with assms show ?thesis by simp
  next
    assume "objs' = (objects w)((ns, app_name @ ''-lb'') := None)"
    with run Delete have "exec ip_address ev w
        = w\<lparr>objects := (objects w)((ns, app_name @ ''-lb'') := None)\<rparr>"
      by simp
    with consistent_remove [OF assms] show ?thesis by simp
  qed
qed

lemma fold_exec_consistent:
  "consistent w \<Longrightarrow> consistent (fold (exec ip_address) evs w)"
  by (induction evs arbitrary: w) (simp_all add: exec_consistent)

lemma run_consistent: "consistent (run ip_address evs)"
  unfolding run_def by (rule fold_exec_consistent) (simp add: consistent_def)

text \<open>
  Claim C4. The cluster is keyed by (namespace, name), so it holds at most one object
  under a key. After any history of reconciliations and deletions from the empty
  cluster, whatever faults the transport injected, every object in the cluster sits under
  the name \<open>app @ ''-lb''\<close> of some app in its namespace and is the object built from the
  configuration of the latest reconciliation of that app and namespace that succeeded. A
  reconciliation that succeeds leaves the object of its app present, built from its
  configuration; and no reconciliation, successful or not, removes an object that was
  present. Only deletion does.
\<close>

theorem reconcile_delete_invariant:
  "consistent (run ip_address evs)
   \<and> (\<forall>objs'. ensure_loadbalancer_service ip_address (Some (cluster_client fc fr fd))
                 app_name ns sel tport lport annots fip objs = (Inr (), objs') \<longrightarrow>
        (\<exists>cfg. service_config ip_address app_name ns sel tport lport annots fip = Inr cfg
               \<and> objs' (ns, app_name @ ''-lb'') = Some (build_service cfg)))
   \<and> (\<forall>r objs' k. ensure_loadbalancer_service ip_address (Some (cluster_client fc fr fd))
                 app_name ns sel tport lport annots fip objs = (r, objs')
               \<and> objs k \<noteq> None \<longrightarrow> objs' k \<noteq> None)"
proof (intro conjI allI impI)
  show "consistent (run ip_address evs)" by (rule run_consistent)
next
  fix objs'
  assume "ensure_loadbalancer_service ip_address (Some (cluster_client fc fr fd))
            app_name ns sel tport lport annots fip objs = (Inr (), objs')"
  from ensure_on_cluster [OF this]
  show "\<exists>cfg. service_config ip_address app_name ns sel tport lport annots fip = Inr cfg
               \<and> objs' (ns, app_name @ ''-lb'') = Some (build_service cfg)"
    by auto
next
  fix r objs' k
  assume a: "ensure_loadbalancer_service ip_address (Some (cluster_client fc fr fd))
            app_name ns sel tport lport annots fip objs = (r, objs') \<and> objs k \<noteq> None"
  then have "ensure_loadbalancer_service ip_address (Some (cluster_client fc fr fd))
            app_name ns sel tport lport annots fip objs = (r, objs')" by simp
  from ensure_on_cluster [OF this] a show "objs' k \<noteq> None" by auto
qed

theorem reconcile_delete_invariant_witness:
  "objects (run (\<lambda>_. None)
      [Reconcile ''myapp'' ''ns1'' [(''app'', ''myapp'')] 8080 80 None None None None,
       Reconcile ''myapp'' ''ns1'' [(''app'', ''myapp'')] 8080 81 None None None None,
       Reconcile ''myapp'' ''ns1'' [(''app'', ''myapp'')] 8080 82 None None
         (Some (ApiError 500 ''boom'')) None,
       Delete ''other'' ''ns1'' None])
     (''ns1'', ''myapp-lb'')
   = Some (build_service
       \<lparr> name = ''myapp-lb'', namespace = ''ns1'', selector = [(''app'', ''myapp'')],
         target_port = 8080, lb_port = 81, annotations = [], fixed_ip = None \<rparr>)
   \<and> reconciled (run (\<lambda>_. None)
      [Reconcile ''myapp'' ''ns1'' [(''app'', ''myapp'')] 8080 80 None None None None,
       Reconcile ''myapp'' ''ns1'' [(''app'', ''myapp'')] 8080 81 None None None None,
       Reconcile ''myapp'' ''ns1'' [(''app'', ''myapp'')] 8080 82 None None
         (Some (ApiError 500 ''boom'')) None,
       Delete ''other'' ''ns1'' None])
     (''ns1'', ''myapp'')
   = Some \<lparr> name = ''myapp-lb'', namespace = ''ns1'', selector = [(''app'', ''myapp'')],
            target_port = 8080, lb_port = 81, annotations = [], fixed_ip = None \<rparr>"
  using reconcile_delete_invariant
    [of "\<lambda>_. None"
        "[Reconcile ''myapp'' ''ns1'' [(''app'', ''myapp'')] 8080 80 None None None None,
          Reconcile ''myapp'' ''ns1'' [(''app'', ''myapp'')] 8080 81 None None None None,
          Reconcile ''myapp'' ''ns1'' [(''app'', ''myapp'')] 8080 82 None None
            (Some (ApiError 500 ''boom'')) None,
          Delete ''other'' ''ns1'' None]"
        None None None "''myapp''" "''ns1''" "[(''app'', ''myapp'')]" 8080 80 None None Map.empty]
  by (simp add: run_def ensure_loadbalancer_service_def delete_loadbalancer_service_def
        service_config_def validate_port_def parse_fixed_ip_def cluster_client_def
        cluster_create_def cluster_replace_def cluster_delete_def svc_key_def build_service_def
        is_conflict_def is_not_found_def)

end
